theory Spec2Isabelle
  imports Complex_Main "HOL-Library.Log_Nat"
begin

section \<open>Python values used by oscars.py\<close>

text \<open>
  The exceptions the script can raise. \<open>FetchError\<close> stands for whatever
  \<open>urllib.request.urlopen\<close> raises; the others are Python's builtin exceptions.
\<close>

datatype error =
    IndexError | ValueError | OverflowError | ZeroDivisionError
  | AttributeError | KeyError | FetchError

subsection \<open>Strings\<close>

text \<open>
  A Python \<open>str\<close> is a sequence of code points. The model keeps the code points below
  256, one \<open>char\<close> each, so that \<open>length\<close> counts what Python's \<open>len\<close> counts.

  \<open>isspace\<close> lists the code points below 256 that \<open>str.split()\<close> treats as
  whitespace: tab, line feed, vertical tab, form feed, carriage return, the four
  separators 0x1C..0x1F, space, NEL (0x85) and the no-break space (0xA0).
\<close>

definition isspace :: "char \<Rightarrow> bool" where
  "isspace c = (of_char c \<in> set [9, 10, 11, 12, 13, 28, 29, 30, 31, 32, 133, 160 :: nat])"

text \<open>
  \<open>s.split()\<close> without arguments: the maximal runs of non-whitespace characters, in
  order. \<open>split_from cur cs\<close> scans \<open>cs\<close> with the token read so far in \<open>cur\<close>.
\<close>

fun split_from :: "string \<Rightarrow> string \<Rightarrow> string list" where
  "split_from cur [] = (if cur = [] then [] else [cur])"
| "split_from cur (c # cs) =
     (if isspace c
      then (if cur = [] then split_from [] cs else cur # split_from [] cs)
      else split_from (cur @ [c]) cs)"

definition str_split :: "string \<Rightarrow> string list" where
  "str_split s = split_from [] s"

text \<open>\<open>s.find(c)\<close> for a one-character needle: the first index of \<open>c\<close>, or -1.\<close>

definition str_find :: "string \<Rightarrow> char \<Rightarrow> int" where
  "str_find s c = (if c \<in> set s then int (length (takeWhile (\<lambda>x. x \<noteq> c) s)) else - 1)"

text \<open>\<open>s.startswith(p)\<close>.\<close>

definition startswith :: "string \<Rightarrow> string \<Rightarrow> bool" where
  "startswith s p = (take (length p) s = p)"

text \<open>\<open>'{:>w}'.format(s)\<close> and \<open>'{:w}'.format(s)\<close> for a string \<open>s\<close>: padding with
  spaces up to the width, never truncating.\<close>

definition rjust :: "nat \<Rightarrow> string \<Rightarrow> string" where
  "rjust w s = replicate (w - length s) CHR '' '' @ s"

definition ljust :: "nat \<Rightarrow> string \<Rightarrow> string" where
  "ljust w s = s @ replicate (w - length s) CHR '' ''"

subsection \<open>Floating point numbers\<close>

text \<open>
  A Python \<open>float\<close> is an IEEE 754 double. No sign character survives the filter of
  \<open>parse_number\<close>, and the script only multiplies by 1000000, adds and divides by a
  positive count, so every float it computes is a non-negative finite double or
  positive infinity: \<open>Fin q\<close> is the double whose exact value is the rational \<open>q\<close>,
  \<open>Inf\<close> is infinity.

  \<open>round_double q\<close> is the double nearest to the exact non-negative value \<open>q\<close>, ties
  to the even significand: 53 significant bits, the least exponent of the subnormal
  range, and infinity from \<open>2 ^ 1024\<close> on (\<open>2 powi k\<close> is the power of two with an
  integer exponent). Every arithmetic operation of the script is
  the exact operation followed by this rounding.
\<close>

datatype pyfloat = Fin rat | Inf

definition round_half_even :: "rat \<Rightarrow> int" where
  "round_half_even q =
     (let f = \<lfloor>q\<rfloor>; d = q - of_int f
      in if d < 1 / 2 then f else if 1 / 2 < d then f + 1 else if even f then f else f + 1)"

text \<open>For \<open>0 < q\<close>, \<open>ilog2 q\<close> is the exponent \<open>e\<close> with \<open>2 ^ e \<le> q < 2 ^ (e + 1)\<close>.\<close>

definition ilog2 :: "rat \<Rightarrow> int" where
  "ilog2 q =
     (let (a, b) = quotient_of q; d = bitlen a - bitlen b
      in if 2 powi d \<le> q then d else d - 1)"

definition round_double :: "rat \<Rightarrow> pyfloat" where
  "round_double q =
     (if q \<le> 0 then Fin 0
      else let e = max (ilog2 q) (- 1022);
               u = 2 powi (e - 52);
               r = of_int (round_half_even (q / u)) * u
           in if 2 powi 1024 \<le> r then Inf else Fin r)"

text \<open>\<open>x * y\<close> and \<open>x / y\<close> for a float \<open>x\<close> and a positive finite \<open>y\<close>; \<open>x + y\<close>.\<close>

fun fmul :: "pyfloat \<Rightarrow> rat \<Rightarrow> pyfloat" where
  "fmul (Fin a) y = round_double (a * y)"
| "fmul Inf y = Inf"

fun fdiv :: "pyfloat \<Rightarrow> rat \<Rightarrow> pyfloat" where
  "fdiv (Fin a) y = round_double (a / y)"
| "fdiv Inf y = Inf"

fun fadd :: "pyfloat \<Rightarrow> pyfloat \<Rightarrow> pyfloat" where
  "fadd (Fin a) (Fin b) = round_double (a + b)"
| "fadd _ _ = Inf"

text \<open>The truth value of a float: false for zero only.\<close>

fun float_truthy :: "pyfloat \<Rightarrow> bool" where
  "float_truthy (Fin q) = (q \<noteq> 0)"
| "float_truthy Inf = True"

text \<open>\<open>round(x)\<close> with one argument: the nearest integer, ties to even; infinity
  cannot be converted.\<close>

fun py_round :: "pyfloat \<Rightarrow> error + int" where
  "py_round (Fin q) = Inr (round_half_even q)"
| "py_round Inf = Inl OverflowError"

subsection \<open>\<open>float(s)\<close> on digits and decimal points\<close>

definition is_digit :: "char \<Rightarrow> bool" where
  "is_digit c = (c \<in> set ''0123456789'')"

definition digit_val :: "char \<Rightarrow> nat" where
  "digit_val c = of_char c - 48"

definition digits_val :: "string \<Rightarrow> nat" where
  "digits_val s = foldl (\<lambda>a c. 10 * a + digit_val c) 0 s"

definition int_part :: "string \<Rightarrow> string" where
  "int_part s = takeWhile (\<lambda>c. c \<noteq> CHR ''.'') s"

definition frac_part :: "string \<Rightarrow> string" where
  "frac_part s = drop 1 (dropWhile (\<lambda>c. c \<noteq> CHR ''.'') s)"

text \<open>The exact value of a decimal literal \<open>ddd.ddd\<close>.\<close>

definition decimal_value :: "string \<Rightarrow> rat" where
  "decimal_value s =
     of_nat (digits_val (int_part s @ frac_part s)) / 10 ^ length (frac_part s)"

text \<open>
  \<open>float(s)\<close> for a string \<open>s\<close> of digits and \<open>.\<close> characters, which is all that
  \<open>parse_number\<close> passes to it. Such a string is a float literal exactly when it has
  at least one digit and at most one decimal point (\<open>12\<close>, \<open>12.\<close>, \<open>.5\<close>, \<open>1.5\<close>);
  Python raises ValueError on every other one (\<open>''\<close>, \<open>.\<close>, \<open>1.2.3\<close>). The
  conversion is correctly rounded.
\<close>

definition py_float :: "string \<Rightarrow> error + pyfloat" where
  "py_float s =
     (if list_all is_digit (int_part s @ frac_part s) \<and> int_part s @ frac_part s \<noteq> []
      then Inr (round_double (decimal_value s))
      else Inl ValueError)"

section \<open>The budget parser\<close>

text \<open>
  \<^verbatim>\<open>
  def parse_number(text):
      return float(''.join(c for c in text if c in '0123456789.'))
  \<close>
\<close>

definition parse_number :: "string \<Rightarrow> error + pyfloat" where
  "parse_number text = py_float (filter (\<lambda>c. c \<in> set ''0123456789.'') text)"

text \<open>
  \<^verbatim>\<open>
  def parse_budget(text):
      i = text.find('$')
      if i == -1:
          return None
      parts = text[i + 1:].split()
      value = parse_number(parts[0])
      if len(parts) > 1 and parts[1].startswith('million'):
          return value * 1000000
      return value
  \<close>
  \<open>parts[0]\<close> raises IndexError on an empty list.
\<close>

definition parse_budget :: "string \<Rightarrow> error + pyfloat option" where
  "parse_budget text =
     (let i = str_find text CHR ''$''
      in if i = - 1 then Inr None
         else let parts = str_split (drop (nat (i + 1)) text)
              in case parts of
                   [] \<Rightarrow> Inl IndexError
                 | p0 # _ \<Rightarrow>
                     (case parse_number p0 of
                        Inl e \<Rightarrow> Inl e
                      | Inr v \<Rightarrow>
                          if 1 < length parts \<and> startswith (parts ! 1) ''million''
                          then Inr (Some (fmul v 1000000))
                          else Inr (Some v)))"

section \<open>Formatting\<close>

text \<open>\<open>str(n)\<close> for a natural number, and \<open>'{:,}'.format(i)\<close> for an integer: the decimal
  digits with a comma before every group of three counted from the right.\<close>

definition digit_char :: "nat \<Rightarrow> char" where
  "digit_char d = ''0123456789'' ! d"

fun str_nat :: "nat \<Rightarrow> string" where
  "str_nat n = (if n < 10 then [digit_char n] else str_nat (n div 10) @ [digit_char (n mod 10)])"

text \<open>\<open>group_rev\<close> works on the digits from the least significant one.\<close>

fun group_rev :: "string \<Rightarrow> string" where
  "group_rev (a # b # c # d # ds) = a # b # c # CHR '','' # group_rev (d # ds)"
| "group_rev ds = ds"

definition group3 :: "string \<Rightarrow> string" where
  "group3 ds = rev (group_rev (rev ds))"

definition format_commas :: "int \<Rightarrow> string" where
  "format_commas i =
     (if i < 0 then ''-'' @ group3 (str_nat (nat (- i))) else group3 (str_nat (nat i)))"

text \<open>\<open>'{:,.0f}'.format(x)\<close>: the nearest integer to the exact value of \<open>x\<close>, ties to
  even, with thousands separators; infinity prints as \<open>inf\<close>.\<close>

fun format_float0 :: "pyfloat \<Rightarrow> string" where
  "format_float0 (Fin q) = format_commas (round_half_even q)"
| "format_float0 Inf = ''inf''"

text \<open>
  \<^verbatim>\<open>
  def format_budget(budget, width=14, prefix='$ '):
      wide = prefix + '{:>' + str(width - len(prefix)) + '}'  # e.g., '$ {:>12}'
      thin = '{:,}'.format(round(budget)) if budget else '-'
      return wide.format(thin)
  \<close>
  The script never passes \<open>width\<close> or \<open>prefix\<close>, so the model fixes their defaults.
  \<open>budget\<close> is a float or \<open>None\<close>; \<open>None\<close> and \<open>0.0\<close> are the false values.
\<close>

definition width :: nat where
  "width = 14"

definition prefix :: string where
  "prefix = ''$ ''"

fun truthy :: "pyfloat option \<Rightarrow> bool" where
  "truthy None = False"
| "truthy (Some x) = float_truthy x"

definition format_budget :: "pyfloat option \<Rightarrow> error + string" where
  "format_budget budget =
     (case (case budget of
              None \<Rightarrow> Inr ''-''
            | Some x \<Rightarrow>
                if truthy budget
                then (case py_round x of Inl e \<Rightarrow> Inl e | Inr i \<Rightarrow> Inr (format_commas i))
                else Inr ''-'') of
        Inl e \<Rightarrow> Inl e
      | Inr thin \<Rightarrow> Inr (prefix @ rjust (width - length prefix) thin))"

section \<open>The document tree\<close>

text \<open>
  A parsed page is a tree of tags and strings (\<open>bs4.Tag\<close>, \<open>bs4.NavigableString\<close>);
  the \<open>BeautifulSoup\<close> object is its root tag. The attributes of a tag are a dict.
  An \<open>element\<close> is a node together with its ancestors, nearest first, which is what
  \<open>.parent\<close> walks.
\<close>

datatype node = Text string | Tag string "string \<rightharpoonup> string" "node list"

type_synonym element = "node \<times> node list"

text \<open>The proper descendants of a node in document order, each with its ancestors.\<close>

fun descendants :: "node list \<Rightarrow> node \<Rightarrow> element list"
  and children_descendants :: "node list \<Rightarrow> node list \<Rightarrow> element list" where
  "descendants anc (Text s) = []"
| "descendants anc (Tag name attrs cs) = children_descendants (Tag name attrs cs # anc) cs"
| "children_descendants anc [] = []"
| "children_descendants anc (c # cs) =
     (c, anc) # descendants anc c @ children_descendants anc cs"

fun is_tag :: "string \<Rightarrow> element \<Rightarrow> bool" where
  "is_tag name (Tag n attrs cs, anc) = (n = name)"
| "is_tag name (Text s, anc) = False"

text \<open>\<open>e.find_all(name)\<close>, \<open>e.find(name)\<close>, \<open>e.find_all(text=True)\<close>,
  \<open>e.find(text=True)\<close> and \<open>e.parent\<close>.\<close>

definition find_all :: "string \<Rightarrow> element \<Rightarrow> element list" where
  "find_all name e = filter (is_tag name) (descendants (snd e) (fst e))"

definition find_tag :: "string \<Rightarrow> element \<Rightarrow> element option" where
  "find_tag name e = (case find_all name e of [] \<Rightarrow> None | x # _ \<Rightarrow> Some x)"

fun texts_of :: "element list \<Rightarrow> string list" where
  "texts_of [] = []"
| "texts_of ((Text s, anc) # es) = s # texts_of es"
| "texts_of ((Tag n attrs cs, anc) # es) = texts_of es"

definition find_all_text :: "element \<Rightarrow> string list" where
  "find_all_text e = texts_of (descendants (snd e) (fst e))"

definition find_text :: "element \<Rightarrow> string option" where
  "find_text e = (case find_all_text e of [] \<Rightarrow> None | s # _ \<Rightarrow> Some s)"

fun parent :: "element \<Rightarrow> element option" where
  "parent (n, []) = None"
| "parent (n, p # anc) = Some (p, anc)"

text \<open>\<open>p in s\<close> for strings, and \<open>sep.join(xs)\<close>.\<close>

fun is_substring :: "string \<Rightarrow> string \<Rightarrow> bool" where
  "is_substring p [] = (p = [])"
| "is_substring p (c # cs) = (startswith (c # cs) p \<or> is_substring p cs)"

fun join :: "string \<Rightarrow> string list \<Rightarrow> string" where
  "join sep [] = []"
| "join sep [x] = x"
| "join sep (x # y # ys) = x @ sep @ join sep (y # ys)"

text \<open>
  \<^verbatim>\<open>
  def get_budget(page):
      ths = [th for th in page.find_all('th')
              if 'Budget' in (th.find(text=True) or '')]
      if not ths:
          return ''
      td = ths[0].parent.find('td')
      return ' '.join(td.find_all(text=True))
  \<close>
  An attribute access on \<open>None\<close> raises AttributeError.
\<close>

definition label :: "element \<Rightarrow> string" where
  "label th = (case find_text th of None \<Rightarrow> [] | Some s \<Rightarrow> s)"

definition get_budget :: "element \<Rightarrow> error + string" where
  "get_budget page =
     (let ths = filter (\<lambda>th. is_substring ''Budget'' (label th)) (find_all ''th'' page)
      in case ths of
           [] \<Rightarrow> Inr []
         | th # _ \<Rightarrow>
             (case parent th of
                None \<Rightarrow> Inl AttributeError
              | Some p \<Rightarrow>
                  (case find_tag ''td'' p of
                     None \<Rightarrow> Inl AttributeError
                   | Some td \<Rightarrow> Inr (join '' '' (find_all_text td)))))"

text \<open>
  \<^verbatim>\<open>
  def get_link(td):
      return td.find('a').attrs['href']

  def get_title(td):
      return str(td.find(text=True))
  \<close>
  Both receive the result of a \<open>find\<close>, which may be \<open>None\<close>; \<open>str(None)\<close> is the
  string \<open>None\<close>.
\<close>

fun attrs_of :: "element \<Rightarrow> string \<rightharpoonup> string" where
  "attrs_of (Tag n attrs cs, anc) = attrs"
| "attrs_of (Text s, anc) = Map.empty"

definition get_link :: "element option \<Rightarrow> error + string" where
  "get_link td =
     (case td of
        None \<Rightarrow> Inl AttributeError
      | Some e \<Rightarrow>
          (case find_tag ''a'' e of
             None \<Rightarrow> Inl AttributeError
           | Some a \<Rightarrow>
               (case attrs_of a ''href'' of None \<Rightarrow> Inl KeyError | Some v \<Rightarrow> Inr v)))"

definition get_title :: "element option \<Rightarrow> error + string" where
  "get_title td =
     (case td of
        None \<Rightarrow> Inl AttributeError
      | Some e \<Rightarrow> Inr (case find_text e of None \<Rightarrow> ''None'' | Some s \<Rightarrow> s))"

text \<open>
  \<^verbatim>\<open>
  def get_year(big):
      texts = big.find_all(text=True)
      multi = len(texts) > 1 and texts[1] == '/'
      return ''.join(texts[:3]) if multi else str(texts[0])
  \<close>
\<close>

definition get_year :: "element \<Rightarrow> error + string" where
  "get_year big =
     (let texts = find_all_text big;
          multi = (1 < length texts \<and> texts ! 1 = ''/'')
      in if multi then Inr (concat (take 3 texts))
         else (case texts of [] \<Rightarrow> Inl IndexError | t # _ \<Rightarrow> Inr t))"

text \<open>
  \<^verbatim>\<open>
  def parse_big(big):
      table = big.parent.parent
      td = table.find('td')
      return get_year(big), get_title(td), get_link(td)
  \<close>
\<close>

definition parse_big :: "element \<Rightarrow> error + string \<times> string \<times> string" where
  "parse_big big =
     (case parent big of
        None \<Rightarrow> Inl AttributeError
      | Some p \<Rightarrow>
          (case parent p of
             None \<Rightarrow> Inl AttributeError
           | Some table \<Rightarrow>
               (let td = find_tag ''td'' table
                in case get_year big of
                     Inl e \<Rightarrow> Inl e
                   | Inr year \<Rightarrow>
                       (case get_title td of
                          Inl e \<Rightarrow> Inl e
                        | Inr title \<Rightarrow>
                            (case get_link td of
                               Inl e \<Rightarrow> Inl e
                             | Inr link \<Rightarrow> Inr (year, title, link))))))"

section \<open>The report\<close>

text \<open>
  \<^verbatim>\<open>
  def main(out=stdout, base='http://en.wikipedia.org'):
      path = '/wiki/Academy_Award_for_Best_Picture'
      soup = fetch(base, path)
      bigs = soup.find_all('big')
      count = 0
      total = 0
      for big in bigs:
          year, title, link = parse_big(big)
          page = fetch(base, link)
          budget = parse_budget(get_budget(page))
          if budget:
              count += 1
              total += budget
          print('{:8} {:50} {}'.format(year, title, format_budget(budget)),
                  file=out)
      print('----\nAverage: $ {:,.0f}'.format(total / count), file=out)
  \<close>
  \<open>fetch\<close> reads the network, so it is a parameter of the model: a function from the
  base and the path to the root of the parsed page, or an error. The state of the loop
  is the two counters and the text printed so far. \<open>total\<close> starts as the integer 0;
  adding a float to it gives that float, as adding it to \<open>0.0\<close> does, and dividing
  either zero by a zero count raises ZeroDivisionError, so the model keeps \<open>total\<close>
  as a float throughout.
\<close>

type_synonym fetcher = "string \<Rightarrow> string \<Rightarrow> error + node"

record acc =
  count :: int
  total :: pyfloat
  out :: string

definition path :: string where
  "path = ''/wiki/Academy_Award_for_Best_Picture''"

definition newline :: string where
  "newline = [CHR 0x0A]"

text \<open>\<open>if budget: count += 1; total += budget\<close>.\<close>

fun tally :: "acc \<Rightarrow> pyfloat option \<Rightarrow> acc" where
  "tally s None = s"
| "tally s (Some x) =
     (if truthy (Some x) then s\<lparr>count := count s + 1, total := fadd (total s) x\<rparr> else s)"

text \<open>One iteration of the loop.\<close>

definition row :: "fetcher \<Rightarrow> string \<Rightarrow> acc \<Rightarrow> element \<Rightarrow> error + acc" where
  "row fetch base s big =
     (case parse_big big of
        Inl e \<Rightarrow> Inl e
      | Inr (year, title, link) \<Rightarrow>
          (case fetch base link of
             Inl e \<Rightarrow> Inl e
           | Inr page \<Rightarrow>
               (case get_budget (page, []) of
                  Inl e \<Rightarrow> Inl e
                | Inr text \<Rightarrow>
                    (case parse_budget text of
                       Inl e \<Rightarrow> Inl e
                     | Inr budget \<Rightarrow>
                         (let s' = tally s budget
                          in case format_budget budget of
                               Inl e \<Rightarrow> Inl e
                             | Inr field \<Rightarrow>
                                 Inr (s'\<lparr>out := out s' @ ljust 8 year @ '' '' @
                                        ljust 50 title @ '' '' @ field @ newline\<rparr>))))))"

text \<open>The loop: an exception ends it, and what was printed before stays printed.\<close>

fun rows :: "fetcher \<Rightarrow> string \<Rightarrow> acc \<Rightarrow> element list \<Rightarrow> acc \<times> error option" where
  "rows fetch base s [] = (s, None)"
| "rows fetch base s (big # bigs) =
     (case row fetch base s big of
        Inl e \<Rightarrow> (s, Some e)
      | Inr s' \<Rightarrow> rows fetch base s' bigs)"

text \<open>\<open>total / count\<close>: the count is converted to a float first.\<close>

definition true_div :: "pyfloat \<Rightarrow> int \<Rightarrow> error + pyfloat" where
  "true_div x n =
     (case round_double (of_int n) of
        Inf \<Rightarrow> Inl OverflowError
      | Fin c \<Rightarrow> if c = 0 then Inl ZeroDivisionError else Inr (fdiv x c))"

text \<open>The whole run: the text printed, and the exception that ended it, if any.\<close>

definition main :: "fetcher \<Rightarrow> string \<Rightarrow> string \<times> error option" where
  "main fetch base =
     (case fetch base path of
        Inl e \<Rightarrow> ([], Some e)
      | Inr soup \<Rightarrow>
          (case rows fetch base \<lparr>count = 0, total = Fin 0, out = []\<rparr>
                  (find_all ''big'' (soup, [])) of
             (s, Some e) \<Rightarrow> (out s, Some e)
           | (s, None) \<Rightarrow>
               (case true_div (total s) (count s) of
                  Inl e \<Rightarrow> (out s, Some e)
                | Inr avg \<Rightarrow>
                    (out s @ ''----'' @ newline @ ''Average: $ '' @ format_float0 avg @ newline,
                     None))))"

section \<open>Well-formed amounts\<close>

text \<open>
  A well-formed number token, as the docstring of \<open>parse_budget\<close> describes it: digits
  with optional commas and at most one decimal point, and at least one digit.
\<close>

definition well_formed_number :: "string \<Rightarrow> bool" where
  "well_formed_number n =
     (list_all (\<lambda>c. is_digit c \<or> c = CHR '','' \<or> c = CHR ''.'') n \<and>
      list_ex is_digit n \<and> count_list n CHR ''.'' \<le> 1)"


section \<open>Sample pages\<close>

text \<open>
  A small index page in the shape the script expects (a table whose caption holds the
  \<open>big\<close> year marker and whose first data cell links to the movie), a year marker that
  spans two years and carries a footnote, and detail pages with and without a budget
  row. \<open>sample_fetch\<close> serves the index and two detail pages.
\<close>

definition sample_caption :: "string \<Rightarrow> node" where
  "sample_caption year = Tag ''caption'' Map.empty [Tag ''big'' Map.empty [Text year]]"

definition sample_table :: "string \<Rightarrow> string \<Rightarrow> string \<Rightarrow> node" where
  "sample_table year title link =
     Tag ''table'' Map.empty
       [sample_caption year,
        Tag ''tr'' Map.empty [Tag ''td'' Map.empty [Tag ''a'' [''href'' \<mapsto> link] [Text title]]]]"

definition sample_index :: node where
  "sample_index =
     Tag ''[document]'' Map.empty
       [sample_table ''1939'' ''Gone'' ''/wiki/Gone'',
        sample_table ''1940'' ''Rebecca'' ''/wiki/Rebecca'']"

definition sample_big :: "string \<Rightarrow> string \<Rightarrow> string \<Rightarrow> element" where
  "sample_big year title link =
     (Tag ''big'' Map.empty [Text year],
      [sample_caption year, sample_table year title link, sample_index])"

definition sample_span :: element where
  "sample_span =
     (Tag ''big'' Map.empty
        [Tag ''a'' Map.empty [Text ''1927''], Text ''/'', Tag ''a'' Map.empty [Text ''28''],
         Tag ''sup'' Map.empty [Tag ''a'' Map.empty [Text ''[A]'']]], [])"

definition sample_page :: "string \<Rightarrow> node" where
  "sample_page text =
     Tag ''[document]'' Map.empty
       [Tag ''tr'' Map.empty
          [Tag ''th'' Map.empty [Text ''Budget''], Tag ''td'' Map.empty [Text text]]]"

definition sample_bare :: node where
  "sample_bare =
     Tag ''[document]'' Map.empty
       [Tag ''tr'' Map.empty
          [Tag ''th'' Map.empty [Text ''Country''], Tag ''td'' Map.empty [Text ''US'']]]"

definition sample_fetch :: "node \<Rightarrow> node \<Rightarrow> fetcher" where
  "sample_fetch page1 page2 base p =
     (if p = path then Inr sample_index
      else if p = ''/wiki/Gone'' then Inr page1
      else if p = ''/wiki/Rebecca'' then Inr page2
      else Inl FetchError)"


section \<open>Properties of the floating point model\<close>

text \<open>
  A value with a significand below \<open>2 ^ 53\<close> and an exponent in the range of the
  doubles is a double: rounding leaves it as it is.
\<close>

lemma bitlen_powi:
  assumes "0 < x"
  shows "(2::rat) powi (bitlen x - 1) \<le> of_int x" and "of_int x < (2::rat) powi (bitlen x)"
proof -
  from assms have ge: "1 \<le> bitlen x" by (simp add: bitlen_alt_def)
  have "(2::int) ^ nat (bitlen x - 1) \<le> x" and "x < (2::int) ^ nat (bitlen x)"
    using bitlen_bounds [OF assms] by simp_all
  then have "(of_int ((2::int) ^ nat (bitlen x - 1)) :: rat) \<le> of_int x"
    and "(of_int x :: rat) < of_int ((2::int) ^ nat (bitlen x))"
    by (simp_all only: of_int_le_iff of_int_less_iff)
  with ge show "(2::rat) powi (bitlen x - 1) \<le> of_int x" and "of_int x < (2::rat) powi (bitlen x)"
    by (simp_all add: power_int_nonneg_exp)
qed

lemma ilog2_bounds:
  assumes "0 < q"
  shows "2 powi ilog2 q \<le> q" and "q < 2 powi (ilog2 q + 1)"
proof -
  obtain a b where ab: "quotient_of q = (a, b)" by (cases "quotient_of q")
  have b: "0 < b" using ab by (rule quotient_of_denom_pos)
  have q: "q = of_int a / of_int b" using ab by (rule quotient_of_div)
  have a: "0 < a" using assms b q by (simp add: zero_less_divide_iff)
  define d where "d = bitlen a - bitlen b"
  have "q < 2 powi bitlen a / 2 powi (bitlen b - 1)"
    unfolding q using bitlen_powi [OF a] bitlen_powi [OF b] a b
    by (intro frac_less) simp_all
  also have "\<dots> = 2 powi (d + 1)"
    by (simp add: d_def power_int_diff [symmetric] algebra_simps)
  finally have up: "q < 2 powi (d + 1)" .
  have "2 powi (bitlen a - 1) / 2 powi bitlen b < q"
    unfolding q using bitlen_powi [OF a] bitlen_powi [OF b] a b
    by (intro frac_less2) simp_all
  moreover have "2 powi (bitlen a - 1) / 2 powi bitlen b = (2::rat) powi (d - 1)"
    by (simp add: d_def power_int_diff [symmetric] algebra_simps)
  ultimately have lo: "2 powi (d - 1) < q" by simp
  have e: "ilog2 q = (if 2 powi d \<le> q then d else d - 1)"
    by (simp add: ilog2_def ab d_def Let_def)
  show "2 powi ilog2 q \<le> q" using lo by (simp add: e)
  show "q < 2 powi (ilog2 q + 1)" using up by (simp add: e)
qed

lemma round_half_even_int: "round_half_even (of_int z) = z"
  by (simp add: round_half_even_def)

lemma round_double_exact:
  assumes m: "0 < m" "m < 2 ^ 53" and k: "- 1074 \<le> k" "k \<le> 971"
  shows "round_double (of_int m * 2 powi k) = Fin (of_int m * 2 powi k)"
proof -
  define q :: rat where "q = of_int m * 2 powi k"
  have pos: "0 < q" using m by (simp add: q_def)
  have "(of_int m :: rat) < 2 ^ 53" using m(2) by (simp only: of_int_less_numeral_power_cancel_iff)
  then have "q < 2 powi 53 * 2 powi k" by (simp add: q_def)
  also have "\<dots> = 2 powi (53 + k)" by (simp add: power_int_add)
  finally have qlt: "q < 2 powi (53 + k)" .
  have "(2::rat) powi ilog2 q < 2 powi (53 + k)"
    using ilog2_bounds(1) [OF pos] qlt by simp
  have "ilog2 q < 53 + k"
  proof (rule ccontr)
    assume "\<not> ilog2 q < 53 + k"
    then have "53 + k \<le> ilog2 q" by simp
    then have "(2::rat) powi (53 + k) \<le> 2 powi ilog2 q"
      by (intro power_int_increasing) simp_all
    with \<open>(2::rat) powi ilog2 q < 2 powi (53 + k)\<close> show False by simp
  qed
  define e where "e = max (ilog2 q) (- 1022)"
  have e: "e \<le> 52 + k" using \<open>ilog2 q < 53 + k\<close> k by (simp add: e_def)
  define j where "j = nat (k - e + 52)"
  have "q / 2 powi (e - 52) = of_int m * 2 powi (k - (e - 52))"
    by (simp add: q_def power_int_diff)
  also have "\<dots> = of_int (m * 2 ^ j)"
    using e by (simp add: j_def power_int_nonneg_exp algebra_simps)
  finally have quo: "q / 2 powi (e - 52) = of_int (m * 2 ^ j)" .
  have "round_half_even (q / 2 powi (e - 52)) = m * 2 ^ j"
    unfolding quo by (rule round_half_even_int)
  then have "(of_int (round_half_even (q / 2 powi (e - 52))) :: rat) = q / 2 powi (e - 52)"
    by (simp only: quo)
  then have r: "of_int (round_half_even (q / 2 powi (e - 52))) * 2 powi (e - 52) = q"
    by simp
  have "q < 2 powi 1024"
  proof -
    have "(2::rat) powi (53 + k) \<le> 2 powi 1024"
      using k by (intro power_int_increasing) simp_all
    with qlt show ?thesis by simp
  qed
  then have "\<not> 2 powi 1024 \<le> q" by simp
  with pos r show ?thesis
    unfolding q_def [symmetric] round_double_def e_def [symmetric] Let_def
    by (simp del: power_int_numeral)
qed

lemma round_double_int:
  assumes "0 \<le> n" "n < 2 ^ 53"
  shows "round_double (of_int n) = Fin (of_int n)"
proof (cases "n = 0")
  case True
  then show ?thesis by (simp add: round_double_def)
next
  case False
  with assms have "0 < n" by simp
  from round_double_exact [OF this assms(2), of 0] show ?thesis by simp
qed


section \<open>Properties of the budget parser\<close>

text \<open>
  The exact value that \<open>float\<close> rounds: a string of digits has the value of its
  digits, and \<open>ip.fp\<close> has the value of \<open>ip\<close> plus the value of \<open>fp\<close> scaled by the
  number of its digits.
\<close>

lemma foldl_digits:
  "foldl (\<lambda>x c. 10 * x + digit_val c) n b =
   n * 10 ^ length b + foldl (\<lambda>x c. 10 * x + digit_val c) 0 b"
proof (induction b arbitrary: n)
  case Nil
  then show ?case by simp
next
  case (Cons c b)
  let ?f = "\<lambda>x c. 10 * x + digit_val c"
  have "foldl ?f n (c # b) = foldl ?f (10 * n + digit_val c) b"
    by simp
  also have "\<dots> = (10 * n + digit_val c) * 10 ^ length b + foldl ?f 0 b"
    by (rule Cons.IH)
  also have "\<dots> = n * 10 ^ length (c # b) + (digit_val c * 10 ^ length b + foldl ?f 0 b)"
    by (simp add: distrib_right)
  also have "digit_val c * 10 ^ length b + foldl ?f 0 b = foldl ?f (digit_val c) b"
    by (rule Cons.IH [symmetric])
  also have "foldl ?f (digit_val c) b = foldl ?f 0 (c # b)"
    by simp
  finally show ?case .
qed

lemma digits_val_append:
  "digits_val (a @ b) = digits_val a * 10 ^ length b + digits_val b"
  unfolding digits_val_def foldl_append by (rule foldl_digits)

lemma decimal_value_digits:
  assumes "CHR ''.'' \<notin> set s"
  shows "decimal_value s = of_nat (digits_val s)"
proof -
  have t: "takeWhile (\<lambda>c. c \<noteq> CHR ''.'') s = s"
    using assms by (induction s) auto
  have d: "dropWhile (\<lambda>c. c \<noteq> CHR ''.'') s = []"
    using assms by (induction s) auto
  show ?thesis
    unfolding decimal_value_def int_part_def frac_part_def t d by simp
qed

lemma decimal_value_point:
  assumes "CHR ''.'' \<notin> set ip"
  shows "decimal_value (ip @ ''.'' @ fp) =
           of_nat (digits_val ip) + of_nat (digits_val fp) / 10 ^ length fp"
proof -
  have t: "takeWhile (\<lambda>c. c \<noteq> CHR ''.'') (ip @ ''.'' @ fp) = ip"
    using assms by (induction ip) auto
  have d: "dropWhile (\<lambda>c. c \<noteq> CHR ''.'') (ip @ ''.'' @ fp) = ''.'' @ fp"
    using assms by (induction ip) auto
  show ?thesis
    unfolding decimal_value_def int_part_def frac_part_def t d
    by (simp add: digits_val_append add_divide_distrib)
qed

lemma str_find_absent: "c \<notin> set s \<Longrightarrow> str_find s c = - 1"
  by (simp add: str_find_def)

lemma str_find_first: "c \<notin> set pre \<Longrightarrow> str_find (pre @ c # rest) c = int (length pre)"
  by (induction pre) (auto simp add: str_find_def)

lemma split_from_token:
  "list_all (\<lambda>c. \<not> isspace c) n \<Longrightarrow> split_from cur (n @ r) = split_from (cur @ n) r"
  by (induction n arbitrary: cur) simp_all

lemma split_from_spaces:
  "list_all isspace ws \<Longrightarrow> split_from [] (ws @ r) = split_from [] r"
  by (induction ws) simp_all

lemma split_from_starts:
  "cur \<noteq> [] \<Longrightarrow> \<exists>t ts. split_from cur r = (cur @ t) # ts"
proof (induction r arbitrary: cur)
  case Nil
  then show ?case by simp
next
  case (Cons c r)
  show ?case
  proof (cases "isspace c")
    case True
    with Cons.prems show ?thesis by simp
  next
    case False
    have "cur @ [c] \<noteq> []" by simp
    from Cons.IH [OF this] obtain t ts where "split_from (cur @ [c]) r = ((cur @ [c]) @ t) # ts"
      by blast
    with False show ?thesis by simp
  qed
qed

lemma frac_part_Cons:
  "frac_part (c # s) = (if c = CHR ''.'' then s else frac_part s)"
  by (simp add: frac_part_def)

lemma int_part_Cons:
  "int_part (c # s) = (if c = CHR ''.'' then [] else c # int_part s)"
  by (simp add: int_part_def)

lemma frac_part_dot: "1 < count_list s CHR ''.'' \<Longrightarrow> CHR ''.'' \<in> set (frac_part s)"
proof (induction s)
  case Nil
  then show ?case by simp
next
  case (Cons c s)
  show ?case
  proof (cases "c = CHR ''.''")
    case True
    with Cons.prems have "count_list s CHR ''.'' \<noteq> 0" by simp
    then have "CHR ''.'' \<in> set s" by (simp add: count_list_0_iff)
    with True show ?thesis by (simp add: frac_part_Cons)
  next
    case False
    with Cons show ?thesis by (simp add: frac_part_Cons)
  qed
qed

lemma py_float_dots: "1 < count_list s CHR ''.'' \<Longrightarrow> py_float s = Inl ValueError"
proof -
  assume "1 < count_list s CHR ''.''"
  then have "CHR ''.'' \<in> set (frac_part s)" by (rule frac_part_dot)
  moreover have "\<not> is_digit CHR ''.''" by (simp add: is_digit_def)
  ultimately have "\<not> list_all is_digit (int_part s @ frac_part s)"
    by (auto simp add: list_all_iff)
  then show ?thesis by (auto simp add: py_float_def)
qed

lemma count_list_filter:
  "count_list (filter P s) c = (if P c then count_list s c else 0)"
  by (induction s) auto

lemma parts_digits:
  "list_all (\<lambda>c. is_digit c \<or> c = CHR ''.'') s \<Longrightarrow> count_list s CHR ''.'' \<le> 1 \<Longrightarrow>
   list_all is_digit (int_part s @ frac_part s)"
proof (induction s)
  case Nil
  then show ?case by (simp add: int_part_def frac_part_def)
next
  case (Cons c s)
  show ?case
  proof (cases "c = CHR ''.''")
    case True
    with Cons.prems have "CHR ''.'' \<notin> set s" by (simp add: count_list_0_iff)
    with Cons.prems(1) have "list_all is_digit s" by (auto simp add: list_all_iff)
    with True show ?thesis by (simp add: int_part_Cons frac_part_Cons)
  next
    case False
    with Cons show ?thesis by (simp add: int_part_Cons frac_part_Cons)
  qed
qed

lemma parts_nonempty: "list_ex is_digit s \<Longrightarrow> int_part s @ frac_part s \<noteq> []"
proof (induction s)
  case Nil
  then show ?case by simp
next
  case (Cons c s)
  have "\<not> is_digit CHR ''.''" by (simp add: is_digit_def)
  with Cons show ?case by (auto simp add: int_part_Cons frac_part_Cons)
qed

lemma well_formed_filter:
  assumes "well_formed_number n"
  shows "filter (\<lambda>c. c \<in> set ''0123456789.'') n = filter (\<lambda>c. c \<noteq> CHR '','') n"
proof (rule filter_cong [OF refl])
  fix c assume "c \<in> set n"
  with assms have "is_digit c \<or> c = CHR '','' \<or> c = CHR ''.''"
    by (auto simp add: well_formed_number_def list_all_iff)
  then show "(c \<in> set ''0123456789.'') = (c \<noteq> CHR '','')"
    by (auto simp add: is_digit_def)
qed

lemma parse_number_well_formed:
  assumes "well_formed_number n"
  shows "parse_number n = Inr (round_double (decimal_value (filter (\<lambda>c. c \<noteq> CHR '','') n)))"
proof -
  let ?s = "filter (\<lambda>c. c \<noteq> CHR '','') n"
  have a: "list_all (\<lambda>c. is_digit c \<or> c = CHR ''.'') ?s"
    using assms by (auto simp add: well_formed_number_def list_all_iff)
  have b: "count_list ?s CHR ''.'' \<le> 1"
    using assms by (simp add: well_formed_number_def count_list_filter)
  have c: "list_ex is_digit ?s"
    using assms by (auto simp add: well_formed_number_def list_ex_iff is_digit_def)
  have "py_float ?s = Inr (round_double (decimal_value ?s))"
    using parts_digits [OF a b] parts_nonempty [OF c] by (simp add: py_float_def)
  then show ?thesis
    by (simp only: parse_number_def well_formed_filter [OF assms])
qed

lemma well_formed_token:
  assumes "well_formed_number n"
  shows "list_all (\<lambda>c. \<not> isspace c) n" and "n \<noteq> []"
proof -
  have "\<not> isspace c" if "is_digit c \<or> c = CHR '','' \<or> c = CHR ''.''" for c
    using that by (auto simp add: is_digit_def isspace_def)
  with assms show "list_all (\<lambda>c. \<not> isspace c) n"
    by (auto simp add: well_formed_number_def list_all_iff)
  from assms show "n \<noteq> []" by (auto simp add: well_formed_number_def)
qed

lemma parse_budget_parts:
  assumes "CHR ''$'' \<notin> set pre"
  shows "parse_budget (pre @ CHR ''$'' # rest) =
     (case str_split rest of
        [] \<Rightarrow> Inl IndexError
      | p0 # ps \<Rightarrow>
          (case parse_number p0 of
             Inl e \<Rightarrow> Inl e
           | Inr v \<Rightarrow>
               if ps \<noteq> [] \<and> startswith (hd ps) ''million''
               then Inr (Some (fmul v 1000000))
               else Inr (Some v)))"
proof -
  have "str_find (pre @ CHR ''$'' # rest) CHR ''$'' = int (length pre)"
    using assms by (rule str_find_first)
  then show ?thesis
    by (cases "str_split rest")
       (auto simp add: parse_budget_def Let_def nat_add_distrib split: sum.splits list.splits
             simp: hd_conv_nth)
qed

lemma str_split_number:
  assumes "list_all isspace sp" "well_formed_number n"
  shows "str_split (sp @ n) = [n]"
proof -
  have "split_from [] (sp @ n) = split_from [] (n @ [])"
    using assms(1) by (simp add: split_from_spaces)
  also have "\<dots> = split_from ([] @ n) []"
    using well_formed_token(1) [OF assms(2)] by (rule split_from_token)
  also have "\<dots> = [n]"
    using well_formed_token(2) [OF assms(2)] by simp
  finally show ?thesis by (simp add: str_split_def)
qed

lemma str_split_million:
  assumes "list_all isspace sp" "well_formed_number n" "list_all isspace sep" "sep \<noteq> []"
  shows "\<exists>t ts. str_split (sp @ n @ sep @ ''million'' @ rest) = n # (''million'' @ t) # ts"
proof -
  from assms(4) obtain c sep' where sep: "sep = c # sep'" by (cases sep) auto
  with assms(3) have c: "isspace c" and sep': "list_all isspace sep'" by simp_all
  have m: "list_all (\<lambda>c. \<not> isspace c) ''million''" by (simp add: isspace_def)
  have "split_from [] (sp @ n @ sep @ ''million'' @ rest) =
        split_from [] (n @ sep @ ''million'' @ rest)"
    using assms(1) by (simp add: split_from_spaces)
  also have "\<dots> = split_from ([] @ n) (sep @ ''million'' @ rest)"
    using well_formed_token(1) [OF assms(2)] by (rule split_from_token)
  also have "\<dots> = n # split_from [] (sep' @ ''million'' @ rest)"
    using well_formed_token(2) [OF assms(2)] c by (simp add: sep)
  also have "split_from [] (sep' @ ''million'' @ rest) = split_from [] (''million'' @ rest)"
    using sep' by (rule split_from_spaces)
  also have "\<dots> = split_from ([] @ ''million'') rest"
    using m by (rule split_from_token)
  finally have "split_from [] (sp @ n @ sep @ ''million'' @ rest) = n # split_from ''million'' rest"
    by simp
  moreover obtain t ts where "split_from ''million'' rest = (''million'' @ t) # ts"
    using split_from_starts [of "''million''" rest] by auto
  ultimately show ?thesis by (simp add: str_split_def)
qed


text \<open>
  Claim C1. Let the text be any characters without a dollar sign, then \<open>$\<close>, optional
  whitespace and a well-formed number token \<open>n\<close>. Then \<open>parse_budget\<close> returns the
  value of \<open>n\<close> read without its commas, as the nearest double. When the token is
  followed by whitespace and a word that starts with \<open>million\<close>, whatever comes after,
  \<open>parse_budget\<close> returns that double times 1000000, in floating point.
\<close>
theorem parse_budget_well_formed:
  assumes "CHR ''$'' \<notin> set pre" and "list_all isspace sp" and "well_formed_number n"
    and "list_all isspace sep" and "sep \<noteq> []"
  shows "parse_budget (pre @ ''$'' @ sp @ n) =
           Inr (Some (round_double (decimal_value (filter (\<lambda>c. c \<noteq> CHR '','') n)))) \<and>
         parse_budget (pre @ ''$'' @ sp @ n @ sep @ ''million'' @ rest) =
           Inr (Some (fmul (round_double (decimal_value (filter (\<lambda>c. c \<noteq> CHR '','') n))) 1000000))"
proof
  show "parse_budget (pre @ ''$'' @ sp @ n) =
           Inr (Some (round_double (decimal_value (filter (\<lambda>c. c \<noteq> CHR '','') n))))"
    using assms(1)
    by (simp add: parse_budget_parts str_split_number [OF assms(2,3)]
        parse_number_well_formed [OF assms(3)])
next
  obtain t ts where "str_split (sp @ n @ sep @ ''million'' @ rest) = n # (''million'' @ t) # ts"
    using str_split_million [OF assms(2-5)] by blast
  then show "parse_budget (pre @ ''$'' @ sp @ n @ sep @ ''million'' @ rest) =
           Inr (Some (fmul (round_double (decimal_value (filter (\<lambda>c. c \<noteq> CHR '','') n))) 1000000))"
    using assms(1)
    by (simp add: parse_budget_parts parse_number_well_formed [OF assms(3)] startswith_def)
qed

theorem parse_budget_well_formed_witness:
  "CHR ''$'' \<notin> set ''US'' \<and> list_all isspace '' '' \<and> well_formed_number ''1,234.5'' \<and>
   list_all isspace [CHR 0xA0] \<and> [CHR 0xA0] \<noteq> [] \<and>
   parse_budget ''US$ 1,234.5'' = Inr (Some (Fin (12345 / 10))) \<and>
   parse_budget (''US$ 1,234.5'' @ [CHR 0xA0] @ ''million[3]'') = Inr (Some (Fin 1234500000))"
proof -
  have h: "CHR ''$'' \<notin> set ''US''" "list_all isspace '' ''" "well_formed_number ''1,234.5''"
     "list_all isspace [CHR 0xA0]" "[CHR 0xA0] \<noteq> []"
    by (simp_all add: isspace_def well_formed_number_def is_digit_def)
  have d: "decimal_value ''1234.5'' = 12345 / 10"
    by (simp add: decimal_value_def int_part_def frac_part_def digits_val_def digit_val_def)
  have v: "round_double (decimal_value ''1234.5'') = Fin (12345 / 10)"
    unfolding d using round_double_exact [of 2469 "- 1"] by simp
  have m: "round_double 1234500000 = Fin 1234500000"
    using round_double_int [of 1234500000] by simp
  show ?thesis
    using h parse_budget_well_formed [OF h, of "''[3]''"] by (simp add: v m)
qed

text \<open>
  Claim C2. A text without a dollar sign, the empty text included, parses to \<open>None\<close>.
\<close>
theorem parse_budget_no_dollar:
  "CHR ''$'' \<notin> set text \<Longrightarrow> parse_budget text = Inr None"
  by (simp add: parse_budget_def str_find_absent)

theorem parse_budget_no_dollar_witness:
  "CHR ''$'' \<notin> set ''unknown'' \<and> parse_budget ''unknown'' = Inr None \<and>
   CHR ''$'' \<notin> set '''' \<and> parse_budget '''' = Inr None"
  using parse_budget_no_dollar [of "''unknown''"] parse_budget_no_dollar [of "''''"] by simp

text \<open>
  Claim C9. When nothing but whitespace follows the first dollar sign, \<open>split\<close> gives
  an empty list and \<open>parts[0]\<close> raises IndexError: \<open>parse_budget\<close> does not return
  \<open>None\<close> here.
\<close>
theorem parse_budget_dollar_then_blank:
  "CHR ''$'' \<notin> set pre \<Longrightarrow> list_all isspace ws \<Longrightarrow>
   parse_budget (pre @ ''$'' @ ws) = Inl IndexError"
  using split_from_spaces [of ws "[]"]
  by (simp add: parse_budget_parts str_split_def)

theorem parse_budget_dollar_then_blank_witness:
  "CHR ''$'' \<notin> set '''' \<and> list_all isspace ''   '' \<and> parse_budget ''$   '' = Inl IndexError \<and>
   list_all isspace '''' \<and> parse_budget ''$'' = Inl IndexError"
  using parse_budget_dollar_then_blank [of "''''" "''   ''"]
    parse_budget_dollar_then_blank [of "''''" "''''"]
  by (simp add: isspace_def)

text \<open>
  Claim C3, as the code has it. The filter of \<open>parse_number\<close> keeps every decimal point,
  so a token with more than one reaches \<open>float\<close> unchanged in that respect, and
  \<open>float\<close> rejects it: \<open>parse_number\<close> raises ValueError.
\<close>
theorem parse_number_many_points:
  "1 < count_list text CHR ''.'' \<Longrightarrow>
   parse_number text = py_float (filter (\<lambda>c. is_digit c \<or> c = CHR ''.'') text) \<and>
   count_list (filter (\<lambda>c. is_digit c \<or> c = CHR ''.'') text) CHR ''.'' = count_list text CHR ''.'' \<and>
   parse_number text = Inl ValueError"
proof -
  assume dots: "1 < count_list text CHR ''.''"
  have "(\<lambda>c. c \<in> set ''0123456789.'') = (\<lambda>c. is_digit c \<or> c = CHR ''.'')"
    by (auto simp add: is_digit_def)
  then have "parse_number text = py_float (filter (\<lambda>c. is_digit c \<or> c = CHR ''.'') text)"
    by (simp add: parse_number_def)
  moreover have "parse_number text = Inl ValueError"
    using dots by (simp add: parse_number_def py_float_dots count_list_filter)
  ultimately show ?thesis by (simp add: count_list_filter)
qed

theorem parse_number_many_points_witness:
  "1 < count_list ''12.3.4'' CHR ''.'' \<and> parse_number ''12.3.4'' = Inl ValueError"
proof -
  have h: "1 < count_list ''12.3.4'' CHR ''.''"
    by simp
  from parse_number_many_points [OF h] have "parse_number ''12.3.4'' = Inl ValueError"
    by blast
  with h show ?thesis by blast
qed

text \<open>
  The claim as stated says that \<open>parse_number\<close> succeeds on \<open>1.2.3\<close>. It returns no
  number there.
\<close>
theorem parse_number_many_points_counterexample:
  "parse_number ''1.2.3'' = Inl ValueError"
  by (simp add: parse_number_def py_float_def int_part_def frac_part_def is_digit_def)

text \<open>
  Claim C6. \<open>parse_number\<close> converts what is left of the text once every character
  other than a digit or a decimal point is removed; a comma anywhere changes nothing;
  \<open>1,234.5\<close> gives 1234.5 and \<open>12\<close> gives 12.0.
\<close>
theorem parse_number_strips:
  "parse_number text = py_float (filter (\<lambda>c. is_digit c \<or> c = CHR ''.'') text) \<and>
   parse_number (a @ '','' @ b) = parse_number (a @ b) \<and>
   parse_number ''1,234.5'' = Inr (Fin (12345 / 10)) \<and>
   parse_number ''12'' = Inr (Fin 12)"
proof -
  have "(\<lambda>c. c \<in> set ''0123456789.'') = (\<lambda>c. is_digit c \<or> c = CHR ''.'')"
    by (auto simp add: is_digit_def)
  then have "parse_number text = py_float (filter (\<lambda>c. is_digit c \<or> c = CHR ''.'') text)"
    by (simp add: parse_number_def)
  moreover have "parse_number (a @ '','' @ b) = parse_number (a @ b)"
    by (simp add: parse_number_def)
  moreover have "parse_number ''1,234.5'' = Inr (Fin (12345 / 10))"
    using round_double_exact [of 2469 "- 1"]
    by (simp add: parse_number_def py_float_def decimal_value_def int_part_def frac_part_def
        digits_val_def digit_val_def is_digit_def)
  moreover have "parse_number ''12'' = Inr (Fin 12)"
    using round_double_int [of 12]
    by (simp add: parse_number_def py_float_def decimal_value_def int_part_def frac_part_def
        digits_val_def digit_val_def is_digit_def)
  ultimately show ?thesis by blast
qed


section \<open>Properties of the tree functions, the formatting and the loop\<close>

text \<open>A year marker without any text makes \<open>texts[0]\<close> raise IndexError.\<close>

lemma get_year_no_text: "find_all_text big = [] \<Longrightarrow> get_year big = Inl IndexError"
  by (simp add: get_year_def)

lemma sample_bigs:
  "find_all ''big'' (sample_index, []) =
     [sample_big ''1939'' ''Gone'' ''/wiki/Gone'', sample_big ''1940'' ''Rebecca'' ''/wiki/Rebecca'']"
  by (simp add: find_all_def sample_index_def sample_table_def sample_caption_def sample_big_def)

lemma sample_parse_big: "parse_big (sample_big year title link) = Inr (year, title, link)"
  by (simp add: parse_big_def get_year_def get_title_def get_link_def find_tag_def find_all_def
      find_text_def find_all_text_def sample_table_def sample_caption_def sample_big_def)

lemma sample_fetch_pages:
  "sample_fetch page1 page2 base path = Inr sample_index"
  "sample_fetch page1 page2 base ''/wiki/Gone'' = Inr page1"
  "sample_fetch page1 page2 base ''/wiki/Rebecca'' = Inr page2"
  by (simp_all add: sample_fetch_def path_def)

lemma sample_get_budget: "get_budget (sample_page text, []) = Inr text"
  by (simp add: get_budget_def label_def find_tag_def find_all_def find_text_def
      find_all_text_def sample_page_def startswith_def)

lemma sample_bare_headers:
  "list_all (\<lambda>th. \<not> is_substring ''Budget'' (label th)) (find_all ''th'' (sample_bare, []))"
  by (simp add: label_def find_all_def find_text_def find_all_text_def sample_bare_def
      startswith_def)

lemma sample_span_texts: "find_all_text sample_span = [''1927'', ''/'', ''28'', ''[A]'']"
  by (simp add: find_all_text_def sample_span_def)

lemma sample_big_texts: "find_all_text (sample_big year title link) = [year]"
  by (simp add: find_all_text_def sample_big_def)

lemma format_commas_1234567: "format_commas 1234567 = ''1,234,567''"
  by (simp add: format_commas_def group3_def digit_char_def)

lemma format_budget_None: "format_budget None = Inr ''$            -''"
  by (simp add: format_budget_def prefix_def width_def rjust_def eval_nat_numeral)

lemma format_budget_zero: "format_budget (Some (Fin 0)) = Inr ''$            -''"
  by (simp add: format_budget_def prefix_def width_def rjust_def eval_nat_numeral)

lemma format_budget_1234567: "format_budget (Some (Fin 1234567)) = Inr ''$    1,234,567''"
  using round_half_even_int [of 1234567]
  by (simp add: format_budget_def prefix_def width_def rjust_def format_commas_1234567
      eval_nat_numeral)

lemma row_eq:
  assumes "parse_big big = Inr (year, title, link)" and "fetch base link = Inr page"
    and "get_budget (page, []) = Inr text" and "parse_budget text = Inr budget"
    and "format_budget budget = Inr field"
  shows "row fetch base s big =
     Inr ((tally s budget)\<lparr>out := out (tally s budget) @ ljust 8 year @ '' '' @
            ljust 50 title @ '' '' @ field @ newline\<rparr>)"
  using assms by (simp add: row_def Let_def)

lemma get_budget_no_header:
  assumes "list_all (\<lambda>th. \<not> is_substring ''Budget'' (label th)) (find_all ''th'' page)"
  shows "get_budget page = Inr []"
proof -
  have "filter (\<lambda>th. is_substring ''Budget'' (label th)) (find_all ''th'' page) = []"
    using assms by (simp add: filter_empty_conv list_all_iff)
  then show ?thesis by (simp add: get_budget_def)
qed

lemma parse_budget_empty: "parse_budget [] = Inr None"
  by (simp add: parse_budget_def str_find_def)

lemma true_div_zero: "true_div x 0 = Inl ZeroDivisionError"
  by (simp add: true_div_def round_double_def)

lemma true_div_pos:
  assumes "0 < n" "n < 2 ^ 53"
  shows "true_div x n = Inr (fdiv x (of_int n))"
  using assms round_double_int [of n] by (simp add: true_div_def)

lemma row_count:
  assumes "row fetch base s big = Inr s'"
  shows "count s \<le> count s' \<and> count s' \<le> count s + 1"
proof -
  have t: "count s \<le> count (tally s b) \<and> count (tally s b) \<le> count s + 1" for b
    by (cases b) simp_all
  from assms show ?thesis
    using t by (auto simp add: row_def Let_def split: sum.splits prod.splits)
qed

lemma rows_count:
  "rows fetch base s bigs = (s', None) \<Longrightarrow>
   count s \<le> count s' \<and> count s' \<le> count s + int (length bigs)"
proof (induction bigs arbitrary: s)
  case Nil
  then show ?case by simp
next
  case (Cons big bigs)
  then obtain s1 where r: "row fetch base s big = Inr s1"
    and rest: "rows fetch base s1 bigs = (s', None)"
    by (auto split: sum.splits)
  from row_count [OF r] Cons.IH [OF rest] show ?case by simp
qed

lemma round_double_numeral:
  "numeral k < (2::int) ^ 53 \<Longrightarrow> round_double (numeral k) = Fin (numeral k)"
  using round_double_int [of "numeral k"] by simp

lemma round_double_zero: "round_double 0 = Fin 0"
  by (simp add: round_double_def)

lemma sample_budgets:
  "parse_budget ''$0'' = Inr (Some (Fin 0))"
  "parse_budget ''$3 million'' = Inr (Some (Fin 3000000))"
  "parse_budget ''$1,000,000'' = Inr (Some (Fin 1000000))"
  by (simp_all add: parse_budget_def str_find_def str_split_def isspace_def startswith_def
      parse_number_def py_float_def decimal_value_def int_part_def frac_part_def
      digits_val_def digit_val_def is_digit_def round_double_numeral round_double_zero)

lemma sample_commas:
  "format_commas 3000000 = ''3,000,000''"
  "format_commas 1000000 = ''1,000,000''"
  "format_commas 2000000 = ''2,000,000''"
  by (simp_all add: format_commas_def group3_def digit_char_def)

lemma format_budget_nonzero:
  "z \<noteq> 0 \<Longrightarrow>
   format_budget (Some (Fin (of_int z))) = Inr (''$ '' @ rjust 12 (format_commas z))"
  by (simp add: format_budget_def prefix_def width_def round_half_even_int)

lemma sample_fields:
  "format_budget (Some (Fin 3000000)) = Inr ''$    3,000,000''"
  "format_budget (Some (Fin 1000000)) = Inr ''$    1,000,000''"
  using format_budget_nonzero [of 3000000] format_budget_nonzero [of 1000000]
  by (simp_all add: sample_commas rjust_def eval_nat_numeral)

lemma sample_rows_none:
  "rows (sample_fetch sample_bare (sample_page ''$0'')) [] \<lparr>count = 0, total = Fin 0, out = []\<rparr>
     (find_all ''big'' (sample_index, [])) =
   (\<lparr>count = 0, total = Fin 0,
     out = ljust 8 ''1939'' @ '' '' @ ljust 50 ''Gone'' @ '' '' @ ''$            -'' @ newline @
           ljust 8 ''1940'' @ '' '' @ ljust 50 ''Rebecca'' @ '' '' @ ''$            -'' @ newline\<rparr>,
    None)"
  by (simp add: sample_bigs row_def sample_parse_big sample_fetch_pages sample_get_budget
      get_budget_no_header [OF sample_bare_headers] parse_budget_empty sample_budgets
      format_budget_None format_budget_zero)

lemma sample_rows_two:
  "rows (sample_fetch (sample_page ''$3 million'') (sample_page ''$1,000,000'')) []
     \<lparr>count = 0, total = Fin 0, out = []\<rparr> (find_all ''big'' (sample_index, [])) =
   (\<lparr>count = 2, total = Fin 4000000,
     out = ljust 8 ''1939'' @ '' '' @ ljust 50 ''Gone'' @ '' '' @ ''$    3,000,000'' @ newline @
           ljust 8 ''1940'' @ '' '' @ ljust 50 ''Rebecca'' @ '' '' @ ''$    1,000,000'' @ newline\<rparr>,
    None)"
  by (simp add: sample_bigs row_def sample_parse_big sample_fetch_pages sample_get_budget
      sample_budgets sample_fields round_double_numeral)


section \<open>The claims about the report\<close>

text \<open>
  Claim C4, as the code has it. The field is 14 characters wide, prefix included: the
  number is right-aligned in the 12 columns after \<open>$ \<close>. So 1234567 (as an integer
  or as the float of the same value: \<open>round\<close> and the truth test treat them alike)
  gives four spaces between the dollar sign and the digits, and \<open>None\<close> gives the
  prefix followed by a dash at the right end of the field.
\<close>
theorem format_budget_fields:
  "format_budget (Some (Fin 1234567)) = Inr ''$    1,234,567'' \<and>
   length ''$    1,234,567'' = width \<and>
   format_budget None = Inr ''$            -'' \<and>
   length ''$            -'' = width"
  by (simp add: format_budget_1234567 format_budget_None width_def)

text \<open>
  The string of the claim as stated has eight spaces and 18 characters; the code does
  not return it.
\<close>
theorem format_budget_fields_counterexample:
  "format_budget (Some (Fin 1234567)) \<noteq> Inr ''$        1,234,567''"
  by (simp add: format_budget_1234567)

text \<open>
  Claim C5. For a year marker with at least one text fragment, \<open>get_year\<close> returns the
  first three fragments joined when the second one is a slash, and the first fragment
  otherwise: \<open>1939\<close> for the fragments \<open>1939\<close>, and \<open>1927/28\<close> for the fragments
  \<open>1927\<close>, \<open>/\<close>, \<open>28\<close>, \<open>[A]\<close>.
\<close>
theorem get_year_fragments:
  assumes "find_all_text big = texts" and "texts \<noteq> []"
  shows "get_year big =
           Inr (if 1 < length texts \<and> texts ! 1 = ''/'' then concat (take 3 texts) else hd texts) \<and>
         (texts = [''1939''] \<longrightarrow> get_year big = Inr ''1939'') \<and>
         (texts = [''1927'', ''/'', ''28'', ''[A]''] \<longrightarrow> get_year big = Inr ''1927/28'')"
proof -
  from assms(2) obtain t ts where "texts = t # ts" by (cases texts) auto
  with assms(1) have g: "get_year big =
      Inr (if 1 < length texts \<and> texts ! 1 = ''/'' then concat (take 3 texts) else hd texts)"
    by (simp add: get_year_def Let_def)
  have "texts = [''1939''] \<longrightarrow> get_year big = Inr ''1939''"
    by (simp add: g)
  moreover have "texts = [''1927'', ''/'', ''28'', ''[A]''] \<longrightarrow> get_year big = Inr ''1927/28''"
    by (simp add: g eval_nat_numeral)
  ultimately show ?thesis using g by blast
qed

theorem get_year_fragments_witness:
  "find_all_text sample_span = [''1927'', ''/'', ''28'', ''[A]''] \<and>
   [''1927'', ''/'', ''28'', ''[A]''] \<noteq> [] \<and>
   get_year sample_span = Inr ''1927/28'' \<and>
   find_all_text (sample_big ''1939'' ''Gone'' ''/wiki/Gone'') = [''1939''] \<and>
   get_year (sample_big ''1939'' ''Gone'' ''/wiki/Gone'') = Inr ''1939''"
  using get_year_fragments [OF sample_span_texts] get_year_fragments [OF sample_big_texts]
  by (simp add: sample_span_texts sample_big_texts)

text \<open>
  Claim C7. On a detail page where no \<open>th\<close> has a label containing \<open>Budget\<close>,
  \<open>get_budget\<close> returns the empty string without an error, the empty string parses
  to \<open>None\<close>, \<open>None\<close> is formatted as a right-aligned dash, and the row of that movie
  is printed with this field, the counters unchanged.
\<close>
theorem get_budget_absent:
  assumes "list_all (\<lambda>th. \<not> is_substring ''Budget'' (label th)) (find_all ''th'' (page, []))"
    and "parse_big big = Inr (year, title, link)" and "fetch base link = Inr page"
  shows "get_budget (page, []) = Inr [] \<and>
         parse_budget [] = Inr None \<and>
         format_budget None = Inr (''$ '' @ rjust 12 ''-'') \<and>
         row fetch base s big =
           Inr (s\<lparr>out := out s @ ljust 8 year @ '' '' @ ljust 50 title @ '' '' @
                  ''$            -'' @ newline\<rparr>)"
proof -
  have g: "get_budget (page, []) = Inr []"
    using assms(1) by (rule get_budget_no_header)
  have "row fetch base s big =
           Inr (s\<lparr>out := out s @ ljust 8 year @ '' '' @ ljust 50 title @ '' '' @
                  ''$            -'' @ newline\<rparr>)"
    using assms(2,3) g by (simp add: row_def parse_budget_empty format_budget_None)
  moreover have "format_budget None = Inr (''$ '' @ rjust 12 ''-'')"
    by (simp add: format_budget_None rjust_def eval_nat_numeral)
  ultimately show ?thesis using g parse_budget_empty by simp
qed

theorem get_budget_absent_witness:
  "list_all (\<lambda>th. \<not> is_substring ''Budget'' (label th)) (find_all ''th'' (sample_bare, [])) \<and>
   parse_big (sample_big ''1939'' ''Gone'' ''/wiki/Gone'') = Inr (''1939'', ''Gone'', ''/wiki/Gone'') \<and>
   sample_fetch sample_bare sample_bare [] ''/wiki/Gone'' = Inr sample_bare \<and>
   get_budget (sample_bare, []) = Inr [] \<and>
   row (sample_fetch sample_bare sample_bare) [] \<lparr>count = 0, total = Fin 0, out = []\<rparr>
     (sample_big ''1939'' ''Gone'' ''/wiki/Gone'') =
     Inr \<lparr>count = 0, total = Fin 0,
          out = ljust 8 ''1939'' @ '' '' @ ljust 50 ''Gone'' @ '' '' @ ''$            -'' @ newline\<rparr>"
proof -
  have f: "sample_fetch sample_bare sample_bare [] ''/wiki/Gone'' = Inr sample_bare"
    by (rule sample_fetch_pages)
  show ?thesis
    using get_budget_absent [where fetch = "sample_fetch sample_bare sample_bare" and base = "[]"
        and s = "\<lparr>count = 0, total = Fin 0, out = []\<rparr>",
        OF sample_bare_headers sample_parse_big f]
    by (simp add: sample_bare_headers sample_parse_big f)
qed

text \<open>
  Claim C8. When the index page is fetched and the loop over the rows ends without an
  exception, the count is between zero and the number of year markers. If it is zero,
  the run ends with ZeroDivisionError after the rows were printed. If it is positive
  (and below \<open>2 ^ 53\<close>, so that it is a float as it is), the run prints the rows, the
  separator and the total divided by the count.
\<close>
theorem main_average:
  assumes "fetch base path = Inr soup"
    and "rows fetch base \<lparr>count = 0, total = Fin 0, out = []\<rparr> (find_all ''big'' (soup, [])) =
           (s, None)"
  shows "0 \<le> count s \<and> count s \<le> int (length (find_all ''big'' (soup, []))) \<and>
         (count s = 0 \<longrightarrow> main fetch base = (out s, Some ZeroDivisionError)) \<and>
         (0 < count s \<and> count s < 2 ^ 53 \<longrightarrow>
            main fetch base =
              (out s @ ''----'' @ newline @ ''Average: $ '' @
                 format_float0 (fdiv (total s) (of_int (count s))) @ newline, None))"
proof -
  have m: "main fetch base =
      (case true_div (total s) (count s) of
         Inl e \<Rightarrow> (out s, Some e)
       | Inr avg \<Rightarrow>
           (out s @ ''----'' @ newline @ ''Average: $ '' @ format_float0 avg @ newline, None))"
    using assms by (simp add: main_def)
  have "0 \<le> count s \<and> count s \<le> int (length (find_all ''big'' (soup, [])))"
    using rows_count [OF assms(2)] by simp
  moreover have "count s = 0 \<longrightarrow> main fetch base = (out s, Some ZeroDivisionError)"
    by (simp add: m true_div_zero)
  moreover have "0 < count s \<and> count s < 2 ^ 53 \<longrightarrow>
            main fetch base =
              (out s @ ''----'' @ newline @ ''Average: $ '' @
                 format_float0 (fdiv (total s) (of_int (count s))) @ newline, None)"
    by (simp add: m true_div_pos)
  ultimately show ?thesis by blast
qed

theorem main_average_witness:
  "main (sample_fetch sample_bare (sample_page ''$0'')) [] =
     (ljust 8 ''1939'' @ '' '' @ ljust 50 ''Gone'' @ '' '' @ ''$            -'' @ newline @
      ljust 8 ''1940'' @ '' '' @ ljust 50 ''Rebecca'' @ '' '' @ ''$            -'' @ newline,
      Some ZeroDivisionError) \<and>
   main (sample_fetch (sample_page ''$3 million'') (sample_page ''$1,000,000'')) [] =
     (ljust 8 ''1939'' @ '' '' @ ljust 50 ''Gone'' @ '' '' @ ''$    3,000,000'' @ newline @
      ljust 8 ''1940'' @ '' '' @ ljust 50 ''Rebecca'' @ '' '' @ ''$    1,000,000'' @ newline @
      ''----'' @ newline @ ''Average: $ 2,000,000'' @ newline, None)"
proof -
  have avg: "format_float0 (round_double 2000000) = ''2,000,000''"
    using round_half_even_int [of 2000000] by (simp add: round_double_numeral sample_commas)
  show ?thesis
    using main_average [OF sample_fetch_pages(1) sample_rows_none]
      main_average [OF sample_fetch_pages(1) sample_rows_two]
    by (simp add: avg)
qed

text \<open>
  Claim C10. A budget that parses to 0.0 is formatted as \<open>None\<close> is, as a right-aligned
  dash, and the loop leaves the count and the total as they were: the row of such a
  movie changes the printed text only.
\<close>
theorem tally_zero_budget:
  assumes "parse_big big = Inr (year, title, link)" and "fetch base link = Inr page"
    and "get_budget (page, []) = Inr text" and "parse_budget text = Inr (Some (Fin 0))"
  shows "format_budget (Some (Fin 0)) = format_budget None \<and>
         format_budget (Some (Fin 0)) = Inr ''$            -'' \<and>
         tally s (Some (Fin 0)) = s \<and> tally s None = s \<and>
         row fetch base s big =
           Inr (s\<lparr>out := out s @ ljust 8 year @ '' '' @ ljust 50 title @ '' '' @
                  ''$            -'' @ newline\<rparr>)"
  using assms by (simp add: row_def format_budget_zero format_budget_None)

theorem tally_zero_budget_witness:
  "parse_big (sample_big ''1939'' ''Gone'' ''/wiki/Gone'') = Inr (''1939'', ''Gone'', ''/wiki/Gone'') \<and>
   sample_fetch (sample_page ''$0'') sample_bare [] ''/wiki/Gone'' = Inr (sample_page ''$0'') \<and>
   get_budget (sample_page ''$0'', []) = Inr ''$0'' \<and>
   parse_budget ''$0'' = Inr (Some (Fin 0)) \<and>
   row (sample_fetch (sample_page ''$0'') sample_bare) [] \<lparr>count = 3, total = Fin 9, out = []\<rparr>
     (sample_big ''1939'' ''Gone'' ''/wiki/Gone'') =
     Inr \<lparr>count = 3, total = Fin 9,
          out = ljust 8 ''1939'' @ '' '' @ ljust 50 ''Gone'' @ '' '' @ ''$            -'' @ newline\<rparr>"
proof -
  have f: "sample_fetch (sample_page ''$0'') sample_bare [] ''/wiki/Gone'' = Inr (sample_page ''$0'')"
    by (rule sample_fetch_pages)
  show ?thesis
    using tally_zero_budget [where fetch = "sample_fetch (sample_page ''$0'') sample_bare"
        and base = "[]" and s = "\<lparr>count = 3, total = Fin 9, out = []\<rparr>",
        OF sample_parse_big f sample_get_budget sample_budgets(1)]
    by (simp add: sample_parse_big f sample_get_budget sample_budgets(1))
qed

end
